theory Spec2Isabelle
  imports Main
begin

section \<open>Text, characters and the regular expressions of \<open>convert.py\<close>\<close>

text \<open>
  A Python \<open>str\<close> is modelled as a \<open>string\<close> whose characters are the code points
  U+0000 to U+00FF (every literal of the source, including the letters of the plain
  character class and the non-breaking space, lies in that range).  The classes
  \<open>\s\<close> and \<open>\w\<close> of the \<open>re\<close> module and the methods \<open>str.strip\<close>, \<open>str.lower\<close>,
  \<open>str.split\<close> and \<open>str.replace\<close> are written out for that range.
\<close>

definition newline :: char where
  "newline = CHR 0x0A"

definition is_space :: "char \<Rightarrow> bool" where
  "is_space c =
     (let n = (of_char c :: nat)
      in (9 \<le> n \<and> n \<le> 13) \<or> (28 \<le> n \<and> n \<le> 32) \<or> n = 133 \<or> n = 160)"

definition is_word :: "char \<Rightarrow> bool" where
  "is_word c =
     (let n = (of_char c :: nat)
      in (48 \<le> n \<and> n \<le> 57) \<or> (65 \<le> n \<and> n \<le> 90) \<or> n = 95 \<or> (97 \<le> n \<and> n \<le> 122)
         \<or> n = 170 \<or> n = 178 \<or> n = 179 \<or> n = 181 \<or> n = 185 \<or> n = 186
         \<or> (188 \<le> n \<and> n \<le> 190) \<or> (192 \<le> n \<and> n \<le> 214)
         \<or> (216 \<le> n \<and> n \<le> 246) \<or> (248 \<le> n \<and> n \<le> 255))"

definition lower_char :: "char \<Rightarrow> char" where
  "lower_char c =
     (let n = (of_char c :: nat)
      in if (65 \<le> n \<and> n \<le> 90) \<or> (192 \<le> n \<and> n \<le> 214) \<or> (216 \<le> n \<and> n \<le> 222)
         then char_of (n + 32) else c)"

definition lower :: "string \<Rightarrow> string" where
  "lower s = map lower_char s"

definition strip :: "string \<Rightarrow> string" where
  "strip s = dropWhile is_space (rev (dropWhile is_space (rev s)))"

text \<open>\<open>str.split()\<close> without argument: the maximal runs of non-whitespace characters.\<close>

fun split_acc :: "string \<Rightarrow> string \<Rightarrow> string list" where
  "split_acc acc [] = (if acc = [] then [] else [rev acc])"
| "split_acc acc (c # cs) =
     (if is_space c then (if acc = [] then split_acc [] cs else rev acc # split_acc [] cs)
      else split_acc (c # acc) cs)"

definition split :: "string \<Rightarrow> string list" where
  "split s = split_acc [] s"

text \<open>\<open>s.replace(old, new)\<close> for a non-empty \<open>old\<close>: leftmost occurrences, not overlapping.\<close>

fun replace :: "string \<Rightarrow> string \<Rightarrow> string \<Rightarrow> string" where
  "replace old new [] = []"
| "replace old new (c # cs) =
     (if old \<noteq> [] \<and> take (length old) (c # cs) = old
      then new @ replace old new (drop (length old) (c # cs))
      else c # replace old new cs)"

text \<open>\<open>re.match(r'```\s*$', line)\<close>\<close>

definition fence_close :: "string \<Rightarrow> bool" where
  "fence_close line = (take 3 line = ''```'' \<and> list_all is_space (drop 3 line))"

text \<open>\<open>re.match(r'```\w*\s*$', line)\<close>\<close>

definition fence_open :: "string \<Rightarrow> bool" where
  "fence_open line =
     (take 3 line = ''```'' \<and> list_all is_space (dropWhile is_word (drop 3 line)))"

text \<open>\<open>re.match(r'(\w+): (.*)', line)\<close>, giving the two groups.\<close>

definition property_match :: "string \<Rightarrow> (string \<times> string) option" where
  "property_match line =
     (let k = takeWhile is_word line; r = dropWhile is_word line
      in if k \<noteq> [] \<and> take 2 r = '': ''
         then Some (k, takeWhile (\<lambda>c. c \<noteq> newline) (drop 2 r))
         else None)"

text \<open>\<open>re.match(r'(#+)\s*(.*)', line)\<close>, giving the two groups.\<close>

definition heading_match :: "string \<Rightarrow> (string \<times> string) option" where
  "heading_match line =
     (let level = takeWhile (\<lambda>c. c = CHR ''#'') line;
          r = dropWhile is_space (dropWhile (\<lambda>c. c = CHR ''#'') line)
      in if level = [] then None
         else Some (level, takeWhile (\<lambda>c. c \<noteq> newline) r))"

section \<open>Dictionaries\<close>

text \<open>
  A Python \<open>dict\<close> keeps its keys in insertion order; assigning to a key that is present
  keeps the key's position.  It is modelled as an association list with distinct keys.
\<close>

type_synonym ('k, 'v) dict = "('k \<times> 'v) list"

fun setitem :: "('k, 'v) dict \<Rightarrow> 'k \<Rightarrow> 'v \<Rightarrow> ('k, 'v) dict" where
  "setitem [] k v = [(k, v)]"
| "setitem ((k', v') # d) k v = (if k' = k then (k, v) # d else (k', v') # setitem d k v)"

definition has_key :: "('k, 'v) dict \<Rightarrow> 'k \<Rightarrow> bool" where
  "has_key d k = (map_of d k \<noteq> None)"

definition dict_update :: "('k, 'v) dict \<Rightarrow> ('k, 'v) dict \<Rightarrow> ('k, 'v) dict" where
  "dict_update d e = fold (\<lambda>(k, v) acc. setitem acc k v) e d"

definition dict_pop :: "('k, 'v) dict \<Rightarrow> 'k \<Rightarrow> ('k, 'v) dict" where
  "dict_pop d k = filter (\<lambda>(k', v). k' \<noteq> k) d"

text \<open>The values a note or the defaults hold: a string, a flag, or the \<open>fields\<close> dict.\<close>

datatype pyval = PStr string | PBool bool | PDict "(string, string) dict"

type_synonym pynote = "(string, pyval) dict"

datatype error = Abort | KeyError | TypeError | AttributeError

section \<open>The block parser \<open>_parse_file\<close>\<close>

text \<open>Python's truth value of \<open>field\<close>: \<open>None\<close> and the empty string are false.\<close>

definition truthy :: "string option \<Rightarrow> bool" where
  "truthy f = (case f of None \<Rightarrow> False | Some s \<Rightarrow> s \<noteq> [])"

text \<open>
  \<open>note['fields'][field] = g(note['fields'][field])\<close>: both subscripts raise
  \<open>KeyError\<close> on a missing key, and subscripting a string with a string raises
  \<open>TypeError\<close>.
\<close>

definition modify_field :: "(string \<Rightarrow> string) \<Rightarrow> pynote \<Rightarrow> string \<Rightarrow> error + pynote" where
  "modify_field g note field =
     (case map_of note ''fields'' of
        None \<Rightarrow> Inl KeyError
      | Some (PDict d) \<Rightarrow>
          (case map_of d field of
             None \<Rightarrow> Inl KeyError
           | Some txt \<Rightarrow> Inr (setitem note ''fields'' (PDict (setitem d field (g txt)))))
      | Some _ \<Rightarrow> Inl TypeError)"

text \<open>\<open>note['fields'][field] = ''\<close>\<close>

definition new_field :: "pynote \<Rightarrow> string \<Rightarrow> error + pynote" where
  "new_field note field =
     (case map_of note ''fields'' of
        None \<Rightarrow> Inl KeyError
      | Some (PDict d) \<Rightarrow> Inr (setitem note ''fields'' (PDict (setitem d field [])))
      | Some _ \<Rightarrow> Inl TypeError)"

text \<open>\<open>if field: note['fields'][field] += line\<close>\<close>

definition append_line :: "pynote \<Rightarrow> string option \<Rightarrow> string \<Rightarrow> error + pynote" where
  "append_line note field line =
     (if truthy field then modify_field (\<lambda>txt. txt @ line) note (the field) else Inr note)"

text \<open>\<open>if field: note['fields'][field] = note['fields'][field].strip()\<close>\<close>

definition strip_field :: "pynote \<Rightarrow> string option \<Rightarrow> error + pynote" where
  "strip_field note field =
     (if truthy field then modify_field strip note (the field) else Inr note)"

record pstate =
  st_defaults :: pynote
  st_notes :: "pynote list"
  st_note :: pynote
  st_codeblock :: bool
  st_field :: "string option"

definition init_state :: pstate where
  "init_state =
     \<lparr>st_defaults = [], st_notes = [], st_note = [], st_codeblock = False, st_field = None\<rparr>"

text \<open>The branch \<open>len(level) == 1\<close> of the loop body.\<close>

definition level1 :: "pstate \<Rightarrow> string \<Rightarrow> error + pstate" where
  "level1 st title =
     (let fresh = [(''title'', PStr title), (''fields'', PDict [])]
      in if st_note st \<noteq> [] then
           (if truthy (st_field st) then
              (case strip_field (st_note st) (st_field st) of
                 Inl e \<Rightarrow> Inl e
               | Inr n \<Rightarrow> Inr (st\<lparr>st_notes := st_notes st @ [n], st_note := fresh,
                                   st_field := None\<rparr>))
            else Inr (st\<lparr>st_defaults := dict_update (st_defaults st) (st_note st),
                         st_note := fresh, st_field := None\<rparr>))
         else Inr (st\<lparr>st_note := fresh, st_field := None\<rparr>))"

text \<open>The branch \<open>len(level) == 2\<close> of the loop body.\<close>

definition level2 :: "pstate \<Rightarrow> string \<Rightarrow> error + pstate" where
  "level2 st title =
     (case strip_field (st_note st) (st_field st) of
        Inl e \<Rightarrow> Inl e
      | Inr n \<Rightarrow>
          if has_key n title then Inl Abort
          else (case new_field n title of
                  Inl e \<Rightarrow> Inl e
                | Inr n' \<Rightarrow> Inr (st\<lparr>st_note := n', st_field := Some title\<rparr>)))"

text \<open>One iteration of \<open>for line in open(filename, 'r')\<close>.\<close>

definition step :: "pstate \<Rightarrow> string \<Rightarrow> error + pstate" where
  "step st line =
     (if st_codeblock st then
        (case append_line (st_note st) (st_field st) line of
           Inl e \<Rightarrow> Inl e
         | Inr n \<Rightarrow> Inr (st\<lparr>st_note := n, st_codeblock := \<not> fence_close line\<rparr>))
      else if fence_open line then
        (case append_line (st_note st) (st_field st) line of
           Inl e \<Rightarrow> Inl e
         | Inr n \<Rightarrow> Inr (st\<lparr>st_note := n, st_codeblock := True\<rparr>))
      else
        (case (if \<not> truthy (st_field st) then property_match line else None) of
           Some (k, v) \<Rightarrow>
             (let k1 = lower k; k2 = (if k1 = ''tag'' then ''tags'' else k1)
              in Inr (st\<lparr>st_note := setitem (st_note st) k2 (PStr (strip v))\<rparr>))
         | None \<Rightarrow>
             (case heading_match line of
                None \<Rightarrow>
                  (case append_line (st_note st) (st_field st) line of
                     Inl e \<Rightarrow> Inl e
                   | Inr n \<Rightarrow> Inr (st\<lparr>st_note := n\<rparr>))
              | Some (level, title) \<Rightarrow>
                  if length level = 1 then level1 st title
                  else if length level = 2 then level2 st title
                  else Inr st)))"

fun run :: "pstate \<Rightarrow> string list \<Rightarrow> error + pstate" where
  "run st [] = Inr st"
| "run st (line # ls) = (case step st line of Inl e \<Rightarrow> Inl e | Inr st' \<Rightarrow> run st' ls)"

text \<open>
  \<open>_parse_file\<close>, applied to the lines that iterating over the opened file yields
  (each line keeps its newline).  The result is the pair \<open>(defaults, notes)\<close>.
\<close>

definition parse_file :: "string list \<Rightarrow> error + (pynote \<times> pynote list)" where
  "parse_file ls =
     (case run init_state ls of
        Inl e \<Rightarrow> Inl e
      | Inr st \<Rightarrow>
          if st_note st \<noteq> [] \<and> truthy (st_field st) then
            (case strip_field (st_note st) (st_field st) of
               Inl e \<Rightarrow> Inl e
             | Inr n \<Rightarrow> Inr (st_defaults st, st_notes st @ [n]))
          else Inr (st_defaults st, st_notes st))"

text \<open>
  What the loop maintains: while \<open>field\<close> is true, \<open>note['fields']\<close> is a dict that
  has the key \<open>field\<close>.
\<close>

definition field_ok :: "pynote \<Rightarrow> string option \<Rightarrow> bool" where
  "field_ok note field =
     (case field of
        None \<Rightarrow> True
      | Some f \<Rightarrow> f = [] \<or> (case map_of note ''fields'' of
                               Some (PDict d) \<Rightarrow> has_key d f
                             | _ \<Rightarrow> False))"

text \<open>A line of the file: the text followed by its newline.\<close>

definition ln :: "string \<Rightarrow> string" where
  "ln s = s @ [newline]"

section \<open>The note assembler \<open>markdown_file_to_notes\<close>\<close>

text \<open>\<open>v in ('true', 'yes')\<close>\<close>

definition markdown_flag :: "pyval \<Rightarrow> pyval" where
  "markdown_flag v = PBool (v = PStr ''true'' \<or> v = PStr ''yes'')"

text \<open>
  \<open>if 'markdown' in d: d['markdown'] = d['markdown'] in ('true', 'yes')\<close>,
  \<open>elif 'md' in d: d['markdown'] = d['md'] in ('true', 'yes'); d.pop('md')\<close>
\<close>

definition parse_markdown_flag :: "pynote \<Rightarrow> pynote" where
  "parse_markdown_flag d =
     (case map_of d ''markdown'' of
        Some v \<Rightarrow> setitem d ''markdown'' (markdown_flag v)
      | None \<Rightarrow>
          (case map_of d ''md'' of
             Some v \<Rightarrow> dict_pop (setitem d ''markdown'' (markdown_flag v)) ''md''
           | None \<Rightarrow> d))"

text \<open>
  \<open>if 'tags' in d: d['tags'] = d['tags'].replace(',', '')\<close>; a value that is not a
  string has no method \<open>replace\<close>.
\<close>

definition remove_comma :: "pynote \<Rightarrow> error + pynote" where
  "remove_comma d =
     (case map_of d ''tags'' of
        None \<Rightarrow> Inr d
      | Some (PStr s) \<Rightarrow> Inr (setitem d ''tags'' (PStr (replace '','' [] s)))
      | Some _ \<Rightarrow> Inl AttributeError)"

definition explicit_defaults :: pynote where
  "explicit_defaults =
     [(''model'', PStr ''Basic''), (''markdown'', PBool True), (''tags'', PStr [])]"

text \<open>The body of \<open>for note in notes\<close>.\<close>

definition fill_note :: "pynote \<Rightarrow> pynote \<Rightarrow> error + pynote" where
  "fill_note defaults note =
     (case remove_comma (parse_markdown_flag note) of
        Inl e \<Rightarrow> Inl e
      | Inr n \<Rightarrow> Inr (dict_update n (filter (\<lambda>(k, v). \<not> has_key n k) defaults)))"

fun fill_notes :: "pynote \<Rightarrow> pynote list \<Rightarrow> error + pynote list" where
  "fill_notes defaults [] = Inr []"
| "fill_notes defaults (note # rest) =
     (case fill_note defaults note of
        Inl e \<Rightarrow> Inl e
      | Inr n \<Rightarrow>
          (case fill_notes defaults rest of Inl e \<Rightarrow> Inl e | Inr ns \<Rightarrow> Inr (n # ns)))"

definition markdown_file_to_notes :: "string list \<Rightarrow> error + pynote list" where
  "markdown_file_to_notes ls =
     (case parse_file ls of
        Inl e \<Rightarrow> Inl e
      | Inr (defaults, notes) \<Rightarrow>
          (case remove_comma (parse_markdown_flag defaults) of
             Inl e \<Rightarrow> Inl e
           | Inr d \<Rightarrow> fill_notes (dict_update explicit_defaults d) notes))"

text \<open>
  \<open>Anki._add_note\<close> receives the tag string \<open>f"{tags} {note['tags']}"\<close> from
  \<open>add_notes_from_list\<close> and adds the tags \<open>tags.strip().split()\<close>.
\<close>

definition add_note_tags :: "string \<Rightarrow> string list" where
  "add_note_tags tags = split (strip tags)"


text \<open>
  What every dictionary built by the parser satisfies: its keys are distinct and the
  value under \<open>tags\<close>, when there is one, is a string.
\<close>

definition is_str :: "pyval \<Rightarrow> bool" where
  "is_str v = (case v of PStr s \<Rightarrow> True | _ \<Rightarrow> False)"

definition dict_ok :: "pynote \<Rightarrow> bool" where
  "dict_ok d = (distinct (map fst d) \<and> (case map_of d ''tags'' of None \<Rightarrow> True | Some v \<Rightarrow> is_str v))"

definition state_ok :: "pstate \<Rightarrow> bool" where
  "state_ok st = (dict_ok (st_defaults st) \<and> list_all dict_ok (st_notes st) \<and> dict_ok (st_note st))"

section \<open>Adding the parsed notes: \<open>Anki.add_notes_from_list\<close>\<close>

text \<open>
  A parsed note as \<open>add_notes_from_list\<close> reads it: the values under the keys
  \<open>model\<close>, \<open>tags\<close>, \<open>markdown\<close> and \<open>fields\<close>, which the assembler has set on every note.
\<close>

record parsed_note =
  pn_model :: string
  pn_tags :: string
  pn_markdown :: bool
  pn_fields :: "(string, string) dict"

text \<open>
  The collection is the external note store.  \<open>_add_note(fields, tags, markdown)\<close> is
  represented by what it hands to the store: the field values (which it renders with
  \<open>markdown_to_html\<close> when the flag is set), the tags \<open>tags.strip().split()\<close> and the
  markdown flag.  The flag \<open>self.modified\<close>, which the error branch clears, is not part
  of the model.
\<close>

datatype added = Added "string list" "string list" bool

definition add_note :: "string list \<Rightarrow> string \<Rightarrow> bool \<Rightarrow> added" where
  "add_note field_values tags markdown = Added field_values (add_note_tags tags) markdown"

definition error_message :: "string \<Rightarrow> string" where
  "error_message model_name = ''Error: Not enough fields for model '' @ model_name @ ''!''"

definition warning_message :: "string \<Rightarrow> string \<Rightarrow> string" where
  "warning_message x y = ''Warning: Inconsistent field names ('' @ x @ '' != '' @ y @ '')''"

definition unknown_model_message :: "string \<Rightarrow> string" where
  "unknown_model_message model_string =
     ''Model '' @ [CHR 0x22] @ model_string @ [CHR 0x22] @ '' was not recognized!''"

text \<open>
  The loop of \<open>add_notes_from_list\<close>.  \<open>models\<close> is the schema lookup of the collection
  behind \<open>set_model\<close>: the field names of the model of that name, or \<open>None\<close>, on which
  \<open>set_model\<close> prints its message and aborts.  \<open>out\<close> collects the lines printed by
  \<open>click.echo\<close>, \<open>acc\<close> is the list \<open>notes\<close>.
\<close>

fun add_notes_loop ::
  "(string \<Rightarrow> string list option) \<Rightarrow> string \<Rightarrow> parsed_note list \<Rightarrow> string list \<Rightarrow> added list
     \<Rightarrow> string list \<times> (error + added list)" where
  "add_notes_loop models tags [] out acc = (out, Inr acc)"
| "add_notes_loop models tags (note # rest) out acc =
     (let model_name = pn_model note
      in case models model_name of
           None \<Rightarrow> (out @ [unknown_model_message model_name], Inl Abort)
         | Some model_field_names \<Rightarrow>
             (let field_names = map fst (pn_fields note);
                  field_values = map snd (pn_fields note)
              in if length field_names \<noteq> length model_field_names
                 then (out @ [error_message model_name], Inl Abort)
                 else add_notes_loop models tags rest
                        (out @ map (\<lambda>(x, y). warning_message x y)
                                 (filter (\<lambda>(x, y). x \<noteq> y) (zip model_field_names field_names)))
                        (acc @ [add_note field_values (tags @ '' '' @ pn_tags note)
                                  (pn_markdown note)])))"

definition add_notes_from_list ::
  "(string \<Rightarrow> string list option) \<Rightarrow> parsed_note list \<Rightarrow> string
     \<Rightarrow> string list \<times> (error + added list)" where
  "add_notes_from_list models parsed_notes tags = add_notes_loop models tags parsed_notes [] []"

text \<open>
  For the statements: a note whose field count is that of its model, the warnings one
  such note causes, and what is added for it.
\<close>

definition count_matches :: "(string \<Rightarrow> string list option) \<Rightarrow> parsed_note \<Rightarrow> bool" where
  "count_matches models note =
     (case models (pn_model note) of
        None \<Rightarrow> False
      | Some names \<Rightarrow> length (pn_fields note) = length names)"

definition note_warnings :: "(string \<Rightarrow> string list option) \<Rightarrow> parsed_note \<Rightarrow> string list" where
  "note_warnings models note =
     (case models (pn_model note) of
        None \<Rightarrow> []
      | Some names \<Rightarrow>
          map (\<lambda>(x, y). warning_message x y)
            (filter (\<lambda>(x, y). x \<noteq> y) (zip names (map fst (pn_fields note)))))"

definition note_added :: "string \<Rightarrow> parsed_note \<Rightarrow> added" where
  "note_added tags note =
     add_note (map snd (pn_fields note)) (tags @ '' '' @ pn_tags note) (pn_markdown note)"

text \<open>A collection with the one model \<open>Basic\<close> of the fields \<open>Front\<close> and \<open>Back\<close>.\<close>

definition basic_schema :: "string \<Rightarrow> string list option" where
  "basic_schema name = (if name = ''Basic'' then Some [''Front'', ''Back''] else None)"

section \<open>The Markdown renderer and the provenance marker\<close>

text \<open>
  The Markdown engine (\<open>markdown.markdown\<close> with the extensions of the source), the HTML
  library (\<open>BeautifulSoup\<close> with \<open>html.parser\<close>), \<open>re.sub\<close> with a pattern built at run
  time and the \<open>base64\<close> codec are collaborators from outside the repository.  They are
  parameters of the model, collected in a record.  The tree that the HTML library
  builds is represented by the list of its top-level children.
\<close>

datatype node = Tag string "(string, string) dict" "node list" | NavigableString string

record htmllib =
  lib_markdown :: "string \<Rightarrow> string"
  lib_parse :: "string \<Rightarrow> node list"
  lib_str :: "node list \<Rightarrow> string"
  lib_re_sub :: "string \<Rightarrow> string \<Rightarrow> string \<Rightarrow> string"
  lib_b64encode :: "string \<Rightarrow> string"
  lib_b64decode :: "string \<Rightarrow> string"

text \<open>
  \<open>lib_markdown\<close> is \<open>markdown.markdown(plain, extensions=[...], output_format="html5")\<close>,
  \<open>lib_parse html\<close> the children of \<open>BeautifulSoup(html, 'html.parser')\<close>, \<open>lib_str\<close> is
  \<open>str(html_tree)\<close>, \<open>lib_re_sub pattern repl string\<close> is \<open>re.sub\<close>,
  \<open>lib_b64encode s\<close> is \<open>base64.b64encode(s.encode('utf-8')).decode()\<close> and
  \<open>lib_b64decode s\<close> is \<open>base64.b64decode(s.encode()).decode('utf-8')\<close>.
\<close>

definition backslash :: char where
  "backslash = CHR 0x5C"

text \<open>The configuration: \<open>cfg['subfields']\<close> when \<open>cfg\<close> has that key, a dict from a tag
  name to its \<open>begin\<close> and \<open>end\<close> strings.\<close>

type_synonym config = "(string, string \<times> string) dict option"

text \<open>
  The character class of the plain test: the letters \<open>a-z\<close> and \<open>A-Z\<close>, the digits,
  the six letters U+00E6, U+00F8, U+00E5, U+00C6, U+00D8 and U+00C5, and the characters
  space, comma, period, question mark, plus and minus.
\<close>

definition plain_char :: "char \<Rightarrow> bool" where
  "plain_char c =
     (let n = (of_char c :: nat)
      in (97 \<le> n \<and> n \<le> 122) \<or> (65 \<le> n \<and> n \<le> 90) \<or> (48 \<le> n \<and> n \<le> 57)
         \<or> n = 230 \<or> n = 248 \<or> n = 229 \<or> n = 198 \<or> n = 216 \<or> n = 197
         \<or> c = CHR '' '' \<or> c = CHR '','' \<or> c = CHR ''.'' \<or> c = CHR ''?''
         \<or> c = CHR ''+'' \<or> c = CHR ''-'')"

text \<open>
  \<open>re.match\<close> of that class, starred and followed by \<open>$\<close>: the longest run of plain characters reaches
  the end of the text, or the one newline that ends it.
\<close>

definition plain_match :: "string \<Rightarrow> bool" where
  "plain_match plain =
     (dropWhile plain_char plain = [] \<or> dropWhile plain_char plain = [newline])"

text \<open>\<open>config_styles(plain, subfield, replace)\<close>\<close>

definition config_styles :: "htmllib \<Rightarrow> string \<Rightarrow> string \<Rightarrow> string \<times> string \<Rightarrow> string" where
  "config_styles L plain subfield rep =
     lib_re_sub L
       (''<('' @ subfield @ '')>(['' @ [backslash] @ ''w'' @ [backslash] @ ''s'' @ [backslash]
          @ ''d.,&'' @ [backslash] @ ''n]*?)</'' @ subfield @ ''>'')
       (fst rep @ [backslash] @ ''2'' @ snd rep)
       plain"

text \<open>
  The text that \<open>markdown_to_html\<close> holds in \<open>plain\<close> when it calls the Markdown engine:
  the escapes of the LaTeX constructs, the non-breaking spaces, the escapes of the
  MathJax delimiters and the substitutions of the configuration, in the order of the
  source.
\<close>

definition preprocess :: "htmllib \<Rightarrow> config \<Rightarrow> string \<Rightarrow> string" where
  "preprocess L cfg plain =
     (let p1 = replace [backslash, backslash] [backslash, backslash, backslash, backslash] plain;
          p2 = replace [backslash, CHR ''{''] [backslash, backslash, CHR ''{''] p1;
          p3 = replace [backslash, CHR ''}''] [backslash, backslash, CHR ''}''] p2;
          p4 = replace ''*}'' [backslash, CHR ''*'', CHR ''}''] p3;
          p5 = replace [CHR 0xA0] '' '' (replace [CHR 0xC2, CHR 0xA0] '' '' p4);
          p6 = replace [backslash, CHR ''[''] [backslash, backslash, CHR ''[''] p5;
          p7 = replace [backslash, CHR '']''] [backslash, backslash, CHR '']''] p6;
          p8 = replace [backslash, CHR ''(''] [backslash, backslash, CHR ''(''] p7;
          p9 = replace [backslash, CHR '')''] [backslash, backslash, CHR '')''] p8
      in case cfg of
           None \<Rightarrow> p9
         | Some subfields \<Rightarrow> fold (\<lambda>(subfield, rep) p. config_styles L p subfield rep) subfields p9)"

text \<open>\<open>_get_first_tag(tree)\<close>\<close>

fun get_first_tag :: "node list \<Rightarrow> node option" where
  "get_first_tag [] = None"
| "get_first_tag (Tag name attrs children # rest) = Some (Tag name attrs children)"
| "get_first_tag (NavigableString s # rest) = get_first_tag rest"

text \<open>
  \<open>tag[key] = v\<close> for the first tag of the tree: the tag is an object of the tree, so
  the assignment changes the tree.
\<close>

fun set_first_tag_attr :: "node list \<Rightarrow> string \<Rightarrow> string \<Rightarrow> node list" where
  "set_first_tag_attr [] key v = []"
| "set_first_tag_attr (Tag name attrs children # rest) key v =
     Tag name (setitem attrs key v) children # rest"
| "set_first_tag_attr (NavigableString s # rest) key v =
     NavigableString s # set_first_tag_attr rest key v"

fun node_attrs :: "node \<Rightarrow> (string, string) dict" where
  "node_attrs (Tag name attrs children) = attrs"
| "node_attrs (NavigableString s) = []"

definition marker :: string where
  "marker = ''data-original-markdown''"

text \<open>\<open>f"<div>{html}</div>"\<close>, after \<open>if not html: html = "&nbsp;"\<close>.\<close>

definition wrapped :: "string \<Rightarrow> string" where
  "wrapped html = ''<div>'' @ (if html = [] then ''&nbsp;'' else html) @ ''</div>''"

text \<open>\<open>html_tree\<close> when the marker is about to be set.\<close>

definition rendered_tree :: "htmllib \<Rightarrow> config \<Rightarrow> string \<Rightarrow> node list" where
  "rendered_tree L cfg plain =
     (let html = lib_markdown L (preprocess L cfg plain);
          html_tree = lib_parse L html
      in case get_first_tag html_tree of
           Some tg \<Rightarrow> html_tree
         | None \<Rightarrow> lib_parse L (wrapped html))"

text \<open>\<open>base64.b64encode(plain.replace("\n", "<br />").encode('utf-8')).decode()\<close>\<close>

definition original_html :: "htmllib \<Rightarrow> string \<Rightarrow> string" where
  "original_html L plain = lib_b64encode L (replace [newline] ''<br />'' plain)"

text \<open>\<open>html_tree\<close> when it is serialized.\<close>

definition marked_tree :: "htmllib \<Rightarrow> config \<Rightarrow> string \<Rightarrow> node list" where
  "marked_tree L cfg plain =
     set_first_tag_attr (rendered_tree L cfg plain) marker
       (original_html L (preprocess L cfg plain))"

text \<open>
  \<open>markdown_to_html(plain)\<close>.  When no tag is found even in the wrapped text, \<open>tag\<close> is
  \<open>None\<close> and the assignment to \<open>tag['data-original-markdown']\<close> raises \<open>TypeError\<close>.
\<close>

definition markdown_to_html :: "htmllib \<Rightarrow> config \<Rightarrow> string \<Rightarrow> error + string" where
  "markdown_to_html L cfg plain =
     (if plain_match plain then Inr plain
      else case get_first_tag (rendered_tree L cfg plain) of
             None \<Rightarrow> Inl TypeError
           | Some tg \<Rightarrow> Inr (lib_str L (marked_tree L cfg plain)))"

text \<open>\<open>is_generated_html(html)\<close> for a string \<open>html\<close>.\<close>

definition is_generated_html :: "htmllib \<Rightarrow> string \<Rightarrow> bool" where
  "is_generated_html L html =
     (case get_first_tag (lib_parse L html) of
        None \<Rightarrow> False
      | Some tg \<Rightarrow> has_key (node_attrs tg) marker)"



text \<open>What the statements ask of the HTML library and of the codec.\<close>

definition text_has_no_tag :: "htmllib \<Rightarrow> bool" where
  "text_has_no_tag L = (\<forall>s. CHR ''<'' \<notin> set s \<longrightarrow> get_first_tag (lib_parse L s) = None)"




text \<open>\<open>pat\<close> occurs in \<open>s\<close>.\<close>

fun occurs :: "string \<Rightarrow> string \<Rightarrow> bool" where
  "occurs pat [] = (pat = [])"
| "occurs pat (c # cs) = (take (length pat) (c # cs) = pat \<or> occurs pat cs)"

section \<open>A small instance of the collaborators\<close>

text \<open>
  To evaluate the renderer on concrete texts the parameters need values.  The instance
  below is a stand-in, not the libraries themselves: an engine that wraps a non-blank
  text in one paragraph, an HTML reader and writer for tags with quoted attributes,
  and Base64 over UTF-8 for the code points below 256.
\<close>

datatype token = TText string | TOpen string "(string, string) dict" | TClose string

fun attrs_name :: "string \<Rightarrow> string \<Rightarrow> (string, string) dict"
  and attrs_eq :: "string \<Rightarrow> string \<Rightarrow> (string, string) dict"
  and attrs_val :: "string \<Rightarrow> string \<Rightarrow> string \<Rightarrow> (string, string) dict" where
  "attrs_name acc [] = []"
| "attrs_name acc (c # cs) =
     (if c = CHR '' '' then attrs_name [] cs
      else if c = CHR ''='' then attrs_eq (rev acc) cs
      else attrs_name (c # acc) cs)"
| "attrs_eq name [] = []"
| "attrs_eq name (c # cs) = (if c = CHR 0x22 then attrs_val name [] cs else attrs_name [] cs)"
| "attrs_val name acc [] = []"
| "attrs_val name acc (c # cs) =
     (if c = CHR 0x22 then (name, rev acc) # attrs_name [] cs else attrs_val name (c # acc) cs)"

definition tag_token :: "string \<Rightarrow> token" where
  "tag_token s =
     (case s of
        [] \<Rightarrow> TOpen [] []
      | c # cs \<Rightarrow>
          if c = CHR ''/'' then TClose cs
          else TOpen (takeWhile (\<lambda>x. x \<noteq> CHR '' '') s)
                 (attrs_name [] (dropWhile (\<lambda>x. x \<noteq> CHR '' '') s)))"

fun lex_text :: "string \<Rightarrow> string \<Rightarrow> token list"
  and lex_tag :: "string \<Rightarrow> string \<Rightarrow> token list" where
  "lex_text acc [] = (if acc = [] then [] else [TText (rev acc)])"
| "lex_text acc (c # cs) =
     (if c = CHR ''<'' then (if acc = [] then [] else [TText (rev acc)]) @ lex_tag [] cs
      else lex_text (c # acc) cs)"
| "lex_tag acc [] = [TText (CHR ''<'' # rev acc)]"
| "lex_tag acc (c # cs) =
     (if c = CHR ''>'' then tag_token (rev acc) # lex_text [] cs else lex_tag (c # acc) cs)"

fun close_all :: "(string \<times> (string, string) dict \<times> node list) list \<Rightarrow> node list \<Rightarrow> node list" where
  "close_all [] cur = rev cur"
| "close_all ((n, a, par) # stack) cur = close_all stack (Tag n a (rev cur) # par)"

fun build ::
  "token list \<Rightarrow> (string \<times> (string, string) dict \<times> node list) list \<Rightarrow> node list \<Rightarrow> node list" where
  "build [] stack cur = close_all stack cur"
| "build (TText s # ts) stack cur = build ts stack (NavigableString s # cur)"
| "build (TOpen n a # ts) stack cur = build ts ((n, a, cur) # stack) []"
| "build (TClose n # ts) [] cur = build ts [] cur"
| "build (TClose n # ts) ((m, a, par) # stack) cur = build ts stack (Tag m a (rev cur) # par)"

definition toy_parse :: "string \<Rightarrow> node list" where
  "toy_parse html = build (lex_text [] html) [] []"

fun toy_str_node :: "node \<Rightarrow> string" where
  "toy_str_node (NavigableString s) = s"
| "toy_str_node (Tag n a children) =
     ''<'' @ n @ concat (map (\<lambda>(k, v). '' '' @ k @ ''='' @ [CHR 0x22] @ v @ [CHR 0x22]) a) @ ''>''
       @ concat (map toy_str_node children) @ ''</'' @ n @ ''>''"

definition toy_str :: "node list \<Rightarrow> string" where
  "toy_str tree = concat (map toy_str_node tree)"

definition toy_markdown :: "string \<Rightarrow> string" where
  "toy_markdown plain = (if list_all is_space plain then [] else ''<p>'' @ plain @ ''</p>'')"

definition utf8_encode :: "string \<Rightarrow> nat list" where
  "utf8_encode s =
     concat (map (\<lambda>c. let n = (of_char c :: nat)
                       in if n < 128 then [n] else [192 + n div 64, 128 + n mod 64]) s)"

fun utf8_decode :: "nat list \<Rightarrow> string" where
  "utf8_decode [] = []"
| "utf8_decode [a] = [char_of a]"
| "utf8_decode (a # b # r) =
     (if a < 128 then char_of a # utf8_decode (b # r)
      else char_of ((a - 192) * 64 + (b - 128)) # utf8_decode r)"

definition b64_alphabet :: string where
  "b64_alphabet = ''ABCDEFGHIJKLMNOPQRSTUVWXYZabcdefghijklmnopqrstuvwxyz0123456789+/''"

definition b64_char :: "nat \<Rightarrow> char" where
  "b64_char i = b64_alphabet ! i"

definition b64_index :: "char \<Rightarrow> nat" where
  "b64_index c = length (takeWhile (\<lambda>x. x \<noteq> c) b64_alphabet)"

fun b64_enc :: "nat list \<Rightarrow> string" where
  "b64_enc [] = []"
| "b64_enc [a] = [b64_char (a div 4), b64_char ((a mod 4) * 16), CHR ''='', CHR ''='']"
| "b64_enc [a, b] =
     [b64_char (a div 4), b64_char ((a mod 4) * 16 + b div 16), b64_char ((b mod 16) * 4),
      CHR ''='']"
| "b64_enc (a # b # c # r) =
     [b64_char (a div 4), b64_char ((a mod 4) * 16 + b div 16),
      b64_char ((b mod 16) * 4 + c div 64), b64_char (c mod 64)] @ b64_enc r"

fun b64_dec :: "string \<Rightarrow> nat list" where
  "b64_dec (w # x # y # z # r) =
     (let i = b64_index w; j = b64_index x; k = b64_index y; l = b64_index z
      in if y = CHR ''='' then [i * 4 + j div 16]
         else if z = CHR ''='' then [i * 4 + j div 16, (j mod 16) * 16 + k div 4]
         else [i * 4 + j div 16, (j mod 16) * 16 + k div 4, (k mod 4) * 64 + l] @ b64_dec r)"
| "b64_dec s = []"

definition toy_lib :: htmllib where
  "toy_lib =
     \<lparr>lib_markdown = toy_markdown, lib_parse = toy_parse, lib_str = toy_str,
      lib_re_sub = (\<lambda>pattern repl s. s),
      lib_b64encode = (\<lambda>s. b64_enc (utf8_encode s)),
      lib_b64decode = (\<lambda>s. utf8_decode (b64_dec s))\<rparr>"

section \<open>Properties of the block parser\<close>

subsection \<open>Dictionaries and the loop invariant\<close>

lemma map_of_setitem: "map_of (setitem d k v) = (map_of d)(k \<mapsto> v)"
  by (induction d k v rule: setitem.induct) auto

lemma has_key_setitem: "has_key (setitem d k v) k' = (k' = k \<or> has_key d k')"
  by (simp add: has_key_def map_of_setitem)

lemma setitem_not_Nil: "setitem d k v \<noteq> []"
  by (cases d) (auto split: if_splits)

lemma field_okD:
  assumes "field_ok note field" "truthy field"
  obtains d tx where "map_of note ''fields'' = Some (PDict d)" "map_of d (the field) = Some tx"
  using assms
  by (auto simp: field_ok_def truthy_def has_key_def split: option.splits pyval.splits)

lemma modify_field_ok:
  assumes "map_of note ''fields'' = Some (PDict d)" "map_of d f = Some txt"
  shows "modify_field g note f = Inr (setitem note ''fields'' (PDict (setitem d f (g txt))))"
  using assms by (simp add: modify_field_def)

lemma field_ok_modify:
  assumes "field_ok note field" "modify_field g note f = Inr n"
  shows "field_ok n field"
  using assms
  by (auto simp: field_ok_def modify_field_def map_of_setitem has_key_setitem
      split: option.splits pyval.splits)

lemma field_ok_append:
  "field_ok note field \<Longrightarrow> append_line note field' line = Inr n \<Longrightarrow> field_ok n field"
  by (auto simp: append_line_def dest: field_ok_modify split: if_splits)

lemma field_ok_strip:
  "field_ok note field \<Longrightarrow> strip_field note field' = Inr n \<Longrightarrow> field_ok n field"
  by (auto simp: strip_field_def dest: field_ok_modify split: if_splits)

lemma field_ok_None [simp]: "field_ok n None"
  by (simp add: field_ok_def)

lemma field_ok_property:
  "\<not> truthy field \<Longrightarrow> field_ok (setitem note k v) field"
  by (auto simp: field_ok_def truthy_def split: option.splits)

lemma field_ok_new:
  "new_field note title = Inr n \<Longrightarrow> field_ok n (Some title)"
  by (auto simp: field_ok_def new_field_def map_of_setitem has_key_setitem
      split: option.splits pyval.splits)

lemma step_field_ok:
  assumes "field_ok (st_note st) (st_field st)" "step st line = Inr st'"
  shows "field_ok (st_note st') (st_field st')"
  using assms
  by (auto simp: step_def level1_def level2_def Let_def
      dest: field_ok_append field_ok_strip field_ok_new intro: field_ok_property
      split: if_splits sum.splits option.splits prod.splits)

lemma run_field_ok:
  "field_ok (st_note st) (st_field st) \<Longrightarrow> run st ls = Inr st' \<Longrightarrow>
   field_ok (st_note st') (st_field st')"
proof (induction ls arbitrary: st)
  case Nil
  then show ?case by simp
next
  case (Cons l ls)
  then show ?case
    by (auto split: sum.splits dest: step_field_ok)
qed

lemma reachable_field_ok:
  "run init_state ls = Inr st \<Longrightarrow> field_ok (st_note st) (st_field st)"
  using run_field_ok [of init_state ls st] by (simp add: init_state_def)

lemma run_append:
  "run st (xs @ ys) = (case run st xs of Inl e \<Rightarrow> Inl e | Inr st' \<Rightarrow> run st' ys)"
  by (induction xs arbitrary: st) (auto split: sum.splits)

lemma heading_match_hash:
  assumes "heading_match line = Some (level, title)"
  obtains r where "line = CHR ''#'' # r"
  using assms
  by (cases line) (auto simp: heading_match_def Let_def split: if_splits)

lemma not_word_hash: "\<not> is_word CHR ''#''"
  by (simp add: is_word_def)

lemma heading_not_fence: "\<not> fence_open (CHR ''#'' # r)"
  by (simp add: fence_open_def)

lemma heading_not_property: "property_match (CHR ''#'' # r) = None"
  by (simp add: property_match_def not_word_hash)

lemma step_heading:
  assumes "\<not> st_codeblock st" "heading_match line = Some (level, title)"
  shows "step st line =
           (if length level = 1 then level1 st title
            else if length level = 2 then level2 st title else Inr st)"
proof -
  obtain r where "line = CHR ''#'' # r"
    using assms(2) by (rule heading_match_hash)
  then show ?thesis
    using assms by (simp add: step_def heading_not_fence heading_not_property)
qed

lemma has_key_modify:
  "modify_field g note f = Inr n \<Longrightarrow> has_key n k = has_key note k"
  by (auto simp: modify_field_def has_key_def map_of_setitem
      split: option.splits pyval.splits if_splits)

lemma has_key_strip_field:
  "strip_field note field = Inr n \<Longrightarrow> has_key n k = has_key note k"
  by (auto simp: strip_field_def dest: has_key_modify split: if_splits)

lemma strip_field_ok:
  assumes "field_ok note field"
  obtains n where "strip_field note field = Inr n"
proof (cases "truthy field")
  case True
  with assms obtain d tx where
    "map_of note ''fields'' = Some (PDict d)" "map_of d (the field) = Some tx"
    by (rule field_okD)
  then have "strip_field note field =
      Inr (setitem note ''fields'' (PDict (setitem d (the field) (strip tx))))"
    using True by (simp add: strip_field_def modify_field_ok)
  then show ?thesis by (rule that)
next
  case False
  then have "strip_field note field = Inr note"
    by (simp add: strip_field_def)
  then show ?thesis by (rule that)
qed

subsection \<open>Duplicate level-2 headings\<close>

text \<open>
  Claim C2 (duplicate field rejection).  The claim says that a block with two level-2
  headings of the same title aborts the parse.  The test of the source is
  \<open>title in note\<close>, on the keys of the block record, not on the keys of
  \<open>note['fields']\<close>: a field name is never among them, so a repeated \<open>## Front\<close> is
  accepted, the field is reset to the empty text and one note is returned.  The theorem
  evaluates the parser on such a file.
\<close>

theorem duplicate_field_not_rejected:
  "parse_file [ln ''# N'', ln ''## Front'', ln ''a'', ln ''## Front'', ln ''b''] =
     Inr ([], [[(''title'', PStr ''N''), (''fields'', PDict [(''Front'', ''b'')])]])"
  by code_simp

subsection \<open>Headings of level three and deeper\<close>

text \<open>
  Claim C5 (level-3+ headings).  Outside a fenced block, a line that matches the heading
  expression with three or more \<open>#\<close> leaves the whole parser state as it is: no block
  and no field is started and nothing is appended to the open field.  The file parses
  as if the line were not there.  This holds with a field open and without.
\<close>

theorem level3_heading_dropped:
  assumes "run init_state pre = Inr st" and "\<not> st_codeblock st"
    and "heading_match line = Some (level, title)" and "3 \<le> length level"
  shows "step st line = Inr st \<and> parse_file (pre @ line # post) = parse_file (pre @ post)"
proof -
  have s: "step st line = Inr st"
    using assms(2-4) by (simp add: step_heading)
  have "run init_state (pre @ line # post) = run init_state (pre @ post)"
    using assms(1) s by (simp add: run_append)
  then show ?thesis
    using s by (simp add: parse_file_def)
qed

theorem level3_heading_dropped_witness:
  "truthy (Some ''Front'')
   \<and> parse_file ([ln ''# N'', ln ''## Front'', ln ''a''] @ ln ''### Sub'' # [ln ''b'']) =
       parse_file ([ln ''# N'', ln ''## Front'', ln ''a''] @ [ln ''b''])
   \<and> parse_file ([ln ''# N'', ln ''## Front'', ln ''a''] @ [ln ''b'']) =
       Inr ([], [[(''title'', PStr ''N''), (''fields'', PDict [(''Front'', ln ''a'' @ ''b'')])]])"
proof -
  let ?st = "\<lparr>st_defaults = [], st_notes = [],
              st_note = [(''title'', PStr ''N''), (''fields'', PDict [(''Front'', ln ''a'')])],
              st_codeblock = False, st_field = Some ''Front''\<rparr>"
  have 1: "run init_state [ln ''# N'', ln ''## Front'', ln ''a''] = Inr ?st" by code_simp
  have 2: "\<not> st_codeblock ?st" by simp
  have 3: "heading_match (ln ''### Sub'') = Some (''###'', ''Sub'')" by code_simp
  have 4: "3 \<le> length ''###''" by simp
  have a: "parse_file ([ln ''# N'', ln ''## Front'', ln ''a''] @ ln ''### Sub'' # [ln ''b'']) =
       parse_file ([ln ''# N'', ln ''## Front'', ln ''a''] @ [ln ''b''])"
    using level3_heading_dropped [OF 1 2 3 4] by simp
  have b: "parse_file ([ln ''# N'', ln ''## Front'', ln ''a''] @ [ln ''b'']) =
       Inr ([], [[(''title'', PStr ''N''), (''fields'', PDict [(''Front'', ln ''a'' @ ''b'')])]])"
    by code_simp
  have c: "truthy (Some ''Front'')" by code_simp
  show ?thesis using a b c by simp
qed

subsection \<open>Titles that are keys of the block record\<close>

text \<open>
  Claim C10 (abort on reserved titles).  Whenever a level-2 heading outside a fenced block
  has a title that is a key of the current block record, the parse of the file aborts,
  whatever follows.  The keys of the record are \<open>title\<close>, \<open>fields\<close> and the names of the
  property lines of the block, none of which is a field name.  The witness is a block
  with the property line \<open>model: X\<close> followed by \<open>## model\<close>, and the headings
  \<open>## title\<close> and \<open>## fields\<close>.
\<close>

theorem reserved_title_aborts:
  assumes "run init_state pre = Inr st" and "\<not> st_codeblock st"
    and "heading_match line = Some (level, title)" and "length level = 2"
    and "has_key (st_note st) title"
  shows "parse_file (pre @ line # post) = Inl Abort"
proof -
  have "field_ok (st_note st) (st_field st)"
    using assms(1) by (rule reachable_field_ok)
  then obtain n where n: "strip_field (st_note st) (st_field st) = Inr n"
    by (rule strip_field_ok)
  then have "has_key n title"
    using assms(5) by (simp add: has_key_strip_field)
  then have "level2 st title = Inl Abort"
    using n by (simp add: level2_def)
  then have "step st line = Inl Abort"
    using assms(2-4) by (simp add: step_heading)
  then have "run init_state (pre @ line # post) = Inl Abort"
    using assms(1) by (simp add: run_append)
  then show ?thesis
    by (simp add: parse_file_def)
qed

theorem reserved_title_aborts_witness:
  "parse_file ([ln ''# N'', ln ''model: X''] @ ln ''## model'' # [ln ''text'']) = Inl Abort
   \<and> parse_file [ln ''# N'', ln ''## title''] = Inl Abort
   \<and> parse_file [ln ''# N'', ln ''## fields''] = Inl Abort"
proof -
  let ?st = "\<lparr>st_defaults = [], st_notes = [],
              st_note = [(''title'', PStr ''N''), (''fields'', PDict []), (''model'', PStr ''X'')],
              st_codeblock = False, st_field = None\<rparr>"
  have 1: "run init_state [ln ''# N'', ln ''model: X''] = Inr ?st" by code_simp
  have 2: "\<not> st_codeblock ?st" by simp
  have 3: "heading_match (ln ''## model'') = Some (''##'', ''model'')" by code_simp
  have 4: "length ''##'' = 2" by simp
  have 5: "has_key (st_note ?st) ''model''" by code_simp
  have a: "parse_file ([ln ''# N'', ln ''model: X''] @ ln ''## model'' # [ln ''text'']) = Inl Abort"
    by (rule reserved_title_aborts [OF 1 2 3 4 5])
  have b: "parse_file [ln ''# N'', ln ''## title''] = Inl Abort" by code_simp
  have c: "parse_file [ln ''# N'', ln ''## fields''] = Inl Abort" by code_simp
  show ?thesis using a b c by simp
qed

subsection \<open>Fenced blocks\<close>











subsection \<open>The end of the input\<close>




section \<open>Properties of the note assembler\<close>

lemma keys_setitem:
  "map fst (setitem d k v) = (if k \<in> fst ` set d then map fst d else map fst d @ [k])"
  by (induction d k v rule: setitem.induct) auto

lemma distinct_setitem: "distinct (map fst d) \<Longrightarrow> distinct (map fst (setitem d k v))"
  by (simp add: keys_setitem)

lemma dict_ok_setitem:
  "dict_ok d \<Longrightarrow> k = ''tags'' \<longrightarrow> is_str v \<Longrightarrow> dict_ok (setitem d k v)"
  by (auto simp: dict_ok_def distinct_setitem map_of_setitem)

lemma dict_ok_modify: "dict_ok n \<Longrightarrow> modify_field g n f = Inr n' \<Longrightarrow> dict_ok n'"
  by (auto simp: modify_field_def intro!: dict_ok_setitem split: option.splits pyval.splits)

lemma dict_ok_append: "dict_ok n \<Longrightarrow> append_line n f l = Inr n' \<Longrightarrow> dict_ok n'"
  by (auto simp: append_line_def dest: dict_ok_modify split: if_splits)

lemma dict_ok_strip: "dict_ok n \<Longrightarrow> strip_field n f = Inr n' \<Longrightarrow> dict_ok n'"
  by (auto simp: strip_field_def dest: dict_ok_modify split: if_splits)

lemma dict_ok_new: "dict_ok n \<Longrightarrow> new_field n f = Inr n' \<Longrightarrow> dict_ok n'"
  by (auto simp: new_field_def intro!: dict_ok_setitem split: option.splits pyval.splits)

lemma dict_ok_fold:
  "dict_ok d \<Longrightarrow> \<forall>(k, v) \<in> set e. k = ''tags'' \<longrightarrow> is_str v \<Longrightarrow>
   dict_ok (fold (\<lambda>(k, v) acc. setitem acc k v) e d)"
  by (induction e arbitrary: d) (auto intro!: dict_ok_setitem)

lemma dict_ok_entries:
  "dict_ok e \<Longrightarrow> \<forall>(k, v) \<in> set e. k = ''tags'' \<longrightarrow> is_str v"
  by (auto simp: dict_ok_def dest!: map_of_is_SomeI)

lemma dict_ok_update: "dict_ok d \<Longrightarrow> dict_ok e \<Longrightarrow> dict_ok (dict_update d e)"
  unfolding dict_update_def by (rule dict_ok_fold) (auto dest: dict_ok_entries)

lemma dict_ok_fresh: "dict_ok [(''title'', PStr t), (''fields'', PDict [])]"
  by (simp add: dict_ok_def)

lemma dict_ok_Nil: "dict_ok []"
  by (simp add: dict_ok_def)

lemma dict_ok_setitem_str: "dict_ok d \<Longrightarrow> dict_ok (setitem d k (PStr s))"
  by (rule dict_ok_setitem) (simp_all add: is_str_def)

lemma state_ok_note:
  "state_ok st \<Longrightarrow> dict_ok n \<Longrightarrow> state_ok (st\<lparr>st_note := n, st_codeblock := b, st_field := f\<rparr>)"
  by (simp add: state_ok_def)

lemma state_ok_upd [simp]:
  "state_ok (st\<lparr>st_codeblock := b\<rparr>) = state_ok st"
  "state_ok (st\<lparr>st_field := f\<rparr>) = state_ok st"
  by (simp_all add: state_ok_def)

lemma state_ok_set_note:
  "state_ok st \<Longrightarrow> dict_ok n \<Longrightarrow> state_ok (st\<lparr>st_note := n\<rparr>)"
  by (simp add: state_ok_def)

lemma level1_state_ok:
  assumes "state_ok st" "level1 st title = Inr st'"
  shows "state_ok st'"
proof -
  have d: "dict_ok (st_defaults st)" "list_all dict_ok (st_notes st)" "dict_ok (st_note st)"
    using assms(1) by (simp_all add: state_ok_def)
  have s: "\<And>n. strip_field (st_note st) (st_field st) = Inr n \<Longrightarrow> dict_ok n"
    using d(3) by (rule dict_ok_strip)
  have u: "dict_ok (dict_update (st_defaults st) (st_note st))"
    using d(1,3) by (rule dict_ok_update)
  show ?thesis
    using assms(2) d s u
    by (auto simp: level1_def Let_def state_ok_def dict_ok_fresh split: if_splits sum.splits)
qed

lemma level2_state_ok:
  assumes "state_ok st" "level2 st title = Inr st'"
  shows "state_ok st'"
proof -
  from assms(2) obtain n n' where n: "strip_field (st_note st) (st_field st) = Inr n"
    and n': "new_field n title = Inr n'" and st': "st' = st\<lparr>st_note := n', st_field := Some title\<rparr>"
    by (auto simp: level2_def split: sum.splits if_splits)
  have "dict_ok (st_note st)"
    using assms(1) by (simp add: state_ok_def)
  then have "dict_ok n" using n by (rule dict_ok_strip)
  then have "dict_ok n'" using n' by (rule dict_ok_new)
  then show ?thesis
    using assms(1) st' by (simp add: state_ok_def)
qed

lemma step_state_ok:
  assumes "state_ok st" "step st line = Inr st'"
  shows "state_ok st'"
proof -
  have ap: "\<And>n. append_line (st_note st) (st_field st) line = Inr n \<Longrightarrow> state_ok (st\<lparr>st_note := n\<rparr>)"
    using assms(1) by (auto simp: state_ok_def dest: dict_ok_append)
  have pr: "\<And>k v. state_ok (st\<lparr>st_note := setitem (st_note st) k (PStr v)\<rparr>)"
    using assms(1) by (auto simp: state_ok_def intro: dict_ok_setitem_str)
  have l1: "\<And>t. level1 st t = Inr st' \<Longrightarrow> state_ok st'"
    using assms(1) by (rule level1_state_ok)
  have l2: "\<And>t. level2 st t = Inr st' \<Longrightarrow> state_ok st'"
    using assms(1) by (rule level2_state_ok)
  show ?thesis
  proof (cases "st_codeblock st \<or> fence_open line")
    case True
    then show ?thesis
      using assms(2) ap by (auto simp: step_def split: if_splits sum.splits)
  next
    case False
    show ?thesis
    proof (cases "if \<not> truthy (st_field st) then property_match line else None")
      case (Some kv)
      then show ?thesis
        using assms(2) False pr by (auto simp: step_def Let_def split: prod.splits)
    next
      case None
      show ?thesis
      proof (cases "heading_match line")
        case h: None
        then show ?thesis
          using assms(1,2) False None ap by (auto simp: step_def split: sum.splits)
      next
        case h: (Some lt)
        then show ?thesis
          using assms(1,2) False None l1 l2
          by (auto simp: step_def split: prod.splits if_splits)
      qed
    qed
  qed
qed

lemma run_state_ok: "state_ok st \<Longrightarrow> run st ls = Inr st' \<Longrightarrow> state_ok st'"
proof (induction ls arbitrary: st)
  case Nil
  then show ?case by simp
next
  case (Cons l ls)
  then show ?case
    by (auto split: sum.splits dest: step_state_ok)
qed

lemma parse_file_dict_ok:
  assumes "parse_file ls = Inr (defaults, notes)"
  shows "dict_ok defaults \<and> list_all dict_ok notes"
proof -
  obtain st where st: "run init_state ls = Inr st"
    using assms by (auto simp: parse_file_def split: sum.splits)
  have "state_ok init_state"
    by (simp add: state_ok_def init_state_def dict_ok_Nil)
  then have "state_ok st"
    using st by (rule run_state_ok)
  then show ?thesis
    using assms st
    by (auto simp: parse_file_def state_ok_def dest: dict_ok_strip split: if_splits sum.splits)
qed


lemma distinct_dict_update:
  "distinct (map fst d) \<Longrightarrow> distinct (map fst (dict_update d e))"
  unfolding dict_update_def
  by (induction e arbitrary: d) (auto simp: distinct_setitem)

lemma map_of_dict_update:
  "distinct (map fst e) \<Longrightarrow> map_of (dict_update d e) = map_of d ++ map_of e"
  unfolding dict_update_def
proof (induction e arbitrary: d)
  case Nil
  then show ?case by simp
next
  case (Cons p e)
  obtain k v where p: "p = (k, v)" by (cases p)
  have "k \<notin> dom (map_of e)"
    using Cons.prems p by (auto simp: dom_map_of_conv_image_fst)
  then have "map_of e k = None"
    by (simp add: domIff)
  then show ?case
    using Cons p
    by (auto simp: map_of_setitem fun_eq_iff map_add_def split: option.splits)
qed

lemma map_of_filter_key:
  "map_of (filter (\<lambda>(k, v). Q k) d) k' = (if Q k' then map_of d k' else None)"
  by (induction d) auto

lemma distinct_filter_keys: "distinct (map fst d) \<Longrightarrow> distinct (map fst (filter P d))"
  by (induction d) auto

lemma map_of_dict_pop: "map_of (dict_pop d k) k' = (if k' = k then None else map_of d k')"
  unfolding dict_pop_def by (induction d) auto

lemma parse_markdown_flag_other:
  "k \<noteq> ''markdown'' \<Longrightarrow> k \<noteq> ''md'' \<Longrightarrow> map_of (parse_markdown_flag d) k = map_of d k"
  by (simp add: parse_markdown_flag_def map_of_setitem map_of_dict_pop split: option.splits)

lemma distinct_dict_pop: "distinct (map fst d) \<Longrightarrow> distinct (map fst (dict_pop d k))"
  unfolding dict_pop_def by (rule distinct_filter_keys)

lemma dict_ok_parse_markdown_flag: "dict_ok d \<Longrightarrow> dict_ok (parse_markdown_flag d)"
  unfolding dict_ok_def
  by (auto simp: parse_markdown_flag_other)
     (auto simp: parse_markdown_flag_def distinct_setitem distinct_dict_pop split: option.splits)

lemma replace_comma: "replace '','' [] s = filter (\<lambda>c. c \<noteq> CHR '','') s"
  by (induction s) (auto simp: drop_Cons')

lemma dict_ok_tags: "dict_ok d \<Longrightarrow> map_of d ''tags'' = Some v \<Longrightarrow> \<exists>s. v = PStr s"
  by (cases v) (simp_all add: dict_ok_def is_str_def)

lemma remove_comma_ok:
  assumes "dict_ok d"
  obtains d' where "remove_comma d = Inr d'"
proof (cases "map_of d ''tags''")
  case None
  then have "remove_comma d = Inr d" by (simp add: remove_comma_def)
  then show ?thesis by (rule that)
next
  case (Some v)
  with assms obtain s where "v = PStr s" by (auto dest: dict_ok_tags)
  with Some have "remove_comma d = Inr (setitem d ''tags'' (PStr (replace '','' [] s)))"
    by (simp add: remove_comma_def)
  then show ?thesis by (rule that)
qed

lemma fill_note_ok:
  assumes "dict_ok note"
  obtains n where "fill_note defaults note = Inr n"
proof -
  have "dict_ok (parse_markdown_flag note)"
    using assms by (rule dict_ok_parse_markdown_flag)
  then obtain d' where "remove_comma (parse_markdown_flag note) = Inr d'"
    by (rule remove_comma_ok)
  then have "fill_note defaults note =
      Inr (dict_update d' (filter (\<lambda>(k, v). \<not> has_key d' k) defaults))"
    by (simp add: fill_note_def)
  then show ?thesis by (rule that)
qed

lemma fill_notes_ok:
  assumes "list_all dict_ok blocks"
  shows "\<exists>ns. fill_notes defaults blocks = Inr ns \<and> length ns = length blocks
            \<and> (\<forall>i < length blocks. fill_note defaults (blocks ! i) = Inr (ns ! i))"
  using assms
proof (induction blocks)
  case Nil
  then show ?case by simp
next
  case (Cons b rest)
  then obtain ns where ns: "fill_notes defaults rest = Inr ns" "length ns = length rest"
    "\<forall>i < length rest. fill_note defaults (rest ! i) = Inr (ns ! i)"
    by auto
  from Cons.prems have "dict_ok b" by simp
  then obtain n where n: "fill_note defaults b = Inr n"
    by (rule fill_note_ok)
  have "\<forall>i < length (b # rest). fill_note defaults ((b # rest) ! i) = Inr ((n # ns) ! i)"
    using n ns(3) by (auto simp: nth_Cons split: nat.splits)
  then show ?case
    using n ns(1,2) by simp
qed

lemma fill_note_inherit:
  assumes "\<not> has_key note ''model''" and "\<not> has_key note ''tags''"
    and "distinct (map fst defaults)" and "fill_note defaults note = Inr n"
  shows "map_of n ''model'' = map_of defaults ''model'' \<and> map_of n ''tags'' = map_of defaults ''tags''"
proof -
  let ?p = "parse_markdown_flag note"
  have m: "map_of ?p ''model'' = None" and t: "map_of ?p ''tags'' = None"
    using assms(1,2) by (simp_all add: parse_markdown_flag_other has_key_def)
  then have "remove_comma ?p = Inr ?p"
    by (simp add: remove_comma_def)
  then have n: "n = dict_update ?p (filter (\<lambda>(k, v). \<not> has_key ?p k) defaults)"
    using assms(4) by (simp add: fill_note_def)
  have "distinct (map fst (filter (\<lambda>(k, v). \<not> has_key ?p k) defaults))"
    using assms(3) by (rule distinct_filter_keys)
  then have "map_of n = map_of ?p ++ map_of (filter (\<lambda>(k, v). \<not> has_key ?p k) defaults)"
    unfolding n by (rule map_of_dict_update)
  then show ?thesis
    using m t by (simp add: map_add_def map_of_filter_key has_key_def split: option.splits)
qed

lemma split_acc_space:
  "is_space c \<Longrightarrow> split_acc acc (a @ c # b) = split_acc acc a @ split_acc [] b"
  by (induction a arbitrary: acc) auto

lemma split_acc_spaces:
  "list_all is_space ws \<Longrightarrow> split_acc acc ws = (if acc = [] then [] else [rev acc])"
  by (induction ws arbitrary: acc) auto

lemma split_acc_trailing:
  "list_all is_space ws \<Longrightarrow> split_acc acc (s @ ws) = split_acc acc s"
  by (induction s arbitrary: acc) (auto simp: split_acc_spaces)

lemma split_leading: "split (dropWhile is_space s) = split s"
  unfolding split_def by (induction s) auto

lemma split_strip: "split (strip s) = split s"
proof -
  let ?t = "rev (dropWhile is_space (rev s))"
  have "s = ?t @ rev (takeWhile is_space (rev s))"
    by (metis rev_append rev_rev_ident takeWhile_dropWhile_id)
  moreover have "list_all is_space (rev (takeWhile is_space (rev s)))"
    by (simp add: list_all_iff) (meson set_takeWhileD)
  ultimately have "split_acc [] s = split_acc [] ?t"
    by (metis split_acc_trailing)
  then show ?thesis
    by (simp add: strip_def split_leading) (simp add: split_def)
qed

lemma add_note_tags_append:
  "add_note_tags (tags @ '' '' @ t) = split tags @ split t"
proof -
  have "is_space CHR '' ''" by (simp add: is_space_def)
  then show ?thesis
    by (simp add: add_note_tags_def split_strip) (simp add: split_def split_acc_space)
qed

text \<open>
  Claim C3 as stated fails: the source deletes the commas
  (\<open>defaults['tags'].replace(',', '')\<close>), it does not turn them into spaces, so the
  defaults \<open>tags: x,y\<close> give the single tag \<open>xy\<close>.
\<close>

theorem defaults_inheritance_counterexample:
  "markdown_file_to_notes
     [ln ''model: Basic'', ln ''tags: x,y'', ln ''# Note 1'', ln ''## Front'', ln ''Q'',
      ln ''## Back'', ln ''A''] =
     Inr [[(''title'', PStr ''Note 1''), (''fields'', PDict [(''Front'', ''Q''), (''Back'', ''A'')]),
           (''model'', PStr ''Basic''), (''markdown'', PBool True), (''tags'', PStr ''xy'')]]
   \<and> add_note_tags ('''' @ '' '' @ ''xy'') = [''xy'']
   \<and> set [''xy''] \<noteq> {''x'', ''y''}"
  by code_simp

text \<open>
  Claim C3, amended (tag assembly and inheritance of the defaults).  For a file whose
  defaults give the model \<open>m\<close> and the tags \<open>ts\<close>, a note with no \<open>model\<close> and no
  \<open>tags\<close> property of its own is assembled with the model \<open>m\<close> and with \<open>ts\<close> without
  its commas as tag string; the tags added to the note are the whitespace-separated
  words of the tags given on the command line and of that string.  Only whitespace
  separates tags: \<open>x, y\<close> gives the tags \<open>x\<close> and \<open>y\<close>, \<open>x,y\<close> gives the tag \<open>xy\<close>.
\<close>

theorem defaults_inheritance:
  assumes "parse_file ls = Inr (defaults, blocks)"
    and "map_of defaults ''model'' = Some (PStr m)"
    and "map_of defaults ''tags'' = Some (PStr ts)"
    and "i < length blocks"
    and "\<not> has_key (blocks ! i) ''model''" and "\<not> has_key (blocks ! i) ''tags''"
  shows "\<exists>ns. markdown_file_to_notes ls = Inr ns \<and> length ns = length blocks
            \<and> map_of (ns ! i) ''model'' = Some (PStr m)
            \<and> map_of (ns ! i) ''tags'' = Some (PStr (filter (\<lambda>c. c \<noteq> CHR '','') ts))
            \<and> add_note_tags (tags @ '' '' @ filter (\<lambda>c. c \<noteq> CHR '','') ts) =
                split tags @ split (filter (\<lambda>c. c \<noteq> CHR '','') ts)"
proof -
  let ?p = "parse_markdown_flag defaults"
  let ?t = "filter (\<lambda>c. c \<noteq> CHR '','') ts"
  let ?d = "setitem ?p ''tags'' (PStr ?t)"
  let ?D = "dict_update explicit_defaults ?d"
  have ok: "dict_ok defaults" "list_all dict_ok blocks"
    using parse_file_dict_ok [OF assms(1)] by simp_all
  have "map_of ?p ''tags'' = Some (PStr ts)"
    using assms(3) by (simp add: parse_markdown_flag_other)
  then have rc: "remove_comma ?p = Inr ?d"
    by (simp add: remove_comma_def replace_comma)
  have "dict_ok ?p"
    using ok(1) by (rule dict_ok_parse_markdown_flag)
  then have dd: "distinct (map fst ?d)"
    by (simp add: dict_ok_def distinct_setitem)
  have "map_of ?D = map_of explicit_defaults ++ map_of ?d"
    using dd by (rule map_of_dict_update)
  then have D: "map_of ?D ''model'' = Some (PStr m)" "map_of ?D ''tags'' = Some (PStr ?t)"
    using assms(2) by (simp_all add: map_of_setitem parse_markdown_flag_other)
  have "distinct (map fst explicit_defaults)"
    by (simp add: explicit_defaults_def)
  then have dD: "distinct (map fst ?D)"
    by (rule distinct_dict_update)
  obtain ns where ns: "fill_notes ?D blocks = Inr ns" "length ns = length blocks"
    "\<forall>j < length blocks. fill_note ?D (blocks ! j) = Inr (ns ! j)"
    using fill_notes_ok [OF ok(2)] by blast
  have "fill_note ?D (blocks ! i) = Inr (ns ! i)"
    using ns(3) assms(4) by simp
  then have "map_of (ns ! i) ''model'' = map_of ?D ''model''
      \<and> map_of (ns ! i) ''tags'' = map_of ?D ''tags''"
    using assms(5,6) dD by (intro fill_note_inherit)
  moreover have "markdown_file_to_notes ls = Inr ns"
    using assms(1) rc ns(1) by (simp add: markdown_file_to_notes_def)
  ultimately show ?thesis
    using D ns(2) add_note_tags_append [of tags ?t] by simp
qed

theorem defaults_inheritance_witness:
  "map_of (projr (markdown_file_to_notes
     [ln ''model: Basic'', ln ''tags: x,y'', ln ''# Note 1'', ln ''## Front'', ln ''Q'',
      ln ''## Back'', ln ''A'']) ! 0) ''model'' = Some (PStr ''Basic'')
   \<and> map_of (projr (markdown_file_to_notes
     [ln ''model: Basic'', ln ''tags: x,y'', ln ''# Note 1'', ln ''## Front'', ln ''Q'',
      ln ''## Back'', ln ''A'']) ! 0) ''tags'' = Some (PStr ''xy'')
   \<and> add_note_tags (''z'' @ '' '' @ ''xy'') = [''z'', ''xy'']"
proof -
  let ?ls = "[ln ''model: Basic'', ln ''tags: x,y'', ln ''# Note 1'', ln ''## Front'', ln ''Q'',
      ln ''## Back'', ln ''A'']"
  let ?defaults = "[(''model'', PStr ''Basic''), (''tags'', PStr ''x,y'')]"
  let ?blocks = "[[(''title'', PStr ''Note 1''),
                   (''fields'', PDict [(''Front'', ''Q''), (''Back'', ''A'')])]]"
  have 1: "parse_file ?ls = Inr (?defaults, ?blocks)" by code_simp
  have 2: "map_of ?defaults ''model'' = Some (PStr ''Basic'')" by simp
  have 3: "map_of ?defaults ''tags'' = Some (PStr ''x,y'')" by simp
  have 4: "0 < length ?blocks" by simp
  have 5: "\<not> has_key (?blocks ! 0) ''model''" by code_simp
  have 6: "\<not> has_key (?blocks ! 0) ''tags''" by code_simp
  have f: "filter (\<lambda>c. c \<noteq> CHR '','') ''x,y'' = ''xy''" by simp
  have s: "split ''z'' @ split ''xy'' = [''z'', ''xy'']" by code_simp
  from defaults_inheritance [OF 1 2 3 4 5 6, of "''z''"] obtain ns where
    "markdown_file_to_notes ?ls = Inr ns"
    "map_of (ns ! 0) ''model'' = Some (PStr ''Basic'')"
    "map_of (ns ! 0) ''tags'' = Some (PStr (filter (\<lambda>c. c \<noteq> CHR '','') ''x,y''))"
    "add_note_tags (''z'' @ '' '' @ filter (\<lambda>c. c \<noteq> CHR '','') ''x,y'') =
       split ''z'' @ split (filter (\<lambda>c. c \<noteq> CHR '','') ''x,y'')"
    by blast
  then show ?thesis
    unfolding f s by simp
qed

section \<open>Properties of \<open>add_notes_from_list\<close>\<close>

lemma add_notes_loop_accepted:
  assumes "\<forall>n \<in> set xs. count_matches models n"
  shows "add_notes_loop models tags (xs @ rest) out acc =
           add_notes_loop models tags rest (out @ concat (map (note_warnings models) xs))
             (acc @ map (note_added tags) xs)"
  using assms
proof (induction xs arbitrary: out acc)
  case Nil
  then show ?case by simp
next
  case (Cons x xs)
  from Cons.prems obtain names where names: "models (pn_model x) = Some names"
    "length (pn_fields x) = length names"
    by (auto simp: count_matches_def split: option.splits)
  have "add_notes_loop models tags ((x # xs) @ rest) out acc =
      add_notes_loop models tags (xs @ rest) (out @ note_warnings models x)
        (acc @ [note_added tags x])"
    using names by (simp add: note_warnings_def note_added_def)
  also have "\<dots> = add_notes_loop models tags rest
      ((out @ note_warnings models x) @ concat (map (note_warnings models) xs))
      ((acc @ [note_added tags x]) @ map (note_added tags) xs)"
    using Cons.prems by (intro Cons.IH) simp
  finally show ?case by simp
qed

lemma add_notes_loop_aborts:
  assumes "note \<in> set xs" and "models (pn_model note) = Some names"
    and "length (pn_fields note) \<noteq> length names"
  shows "snd (add_notes_loop models tags xs out acc) = Inl Abort"
  using assms(1)
proof (induction xs arbitrary: out acc)
  case Nil
  then show ?case by simp
next
  case (Cons x xs)
  show ?case
  proof (cases "count_matches models x")
    case True
    then have "x \<noteq> note"
      using assms(2,3) by (auto simp: count_matches_def)
    then have "note \<in> set xs"
      using Cons.prems by simp
    then show ?thesis
      using True Cons.IH by (auto simp: count_matches_def Let_def split: option.splits)
  next
    case False
    then show ?thesis
      by (auto simp: count_matches_def Let_def split: option.splits)
  qed
qed

text \<open>
  Claim C6 (field-count validation).  A list of parsed notes that holds a note whose
  number of fields differs from the number of fields of its model is not added: the
  call aborts.  At the first such note, when the notes before it were accepted, the
  last line printed is the error message that names the model of that note.  When the
  number of fields of every note is that of its model, the call succeeds and returns
  one added note per parsed note, and the only lines printed are warnings, one for
  each position at which the field name of the note differs from that of the model.
\<close>

theorem field_count_validation:
  "(note \<in> set ns \<longrightarrow> models (pn_model note) = Some names \<longrightarrow>
      length (pn_fields note) \<noteq> length names \<longrightarrow>
      snd (add_notes_from_list models ns tags) = Inl Abort)
   \<and> ((\<forall>n \<in> set pre. count_matches models n) \<longrightarrow> models (pn_model note) = Some names \<longrightarrow>
      length (pn_fields note) \<noteq> length names \<longrightarrow>
      add_notes_from_list models (pre @ note # post) tags =
        (concat (map (note_warnings models) pre) @ [error_message (pn_model note)], Inl Abort))
   \<and> ((\<forall>n \<in> set ns. count_matches models n) \<longrightarrow>
      add_notes_from_list models ns tags =
        (concat (map (note_warnings models) ns), Inr (map (note_added tags) ns)))"
proof (intro conjI impI)
  assume "note \<in> set ns" and "models (pn_model note) = Some names"
    and "length (pn_fields note) \<noteq> length names"
  then show "snd (add_notes_from_list models ns tags) = Inl Abort"
    unfolding add_notes_from_list_def by (rule add_notes_loop_aborts)
next
  assume "\<forall>n \<in> set pre. count_matches models n" and "models (pn_model note) = Some names"
    and "length (pn_fields note) \<noteq> length names"
  then show "add_notes_from_list models (pre @ note # post) tags =
        (concat (map (note_warnings models) pre) @ [error_message (pn_model note)], Inl Abort)"
    by (simp add: add_notes_from_list_def add_notes_loop_accepted)
next
  assume "\<forall>n \<in> set ns. count_matches models n"
  then show "add_notes_from_list models ns tags =
        (concat (map (note_warnings models) ns), Inr (map (note_added tags) ns))"
    using add_notes_loop_accepted [of ns models tags "[]" "[]" "[]"]
    by (simp add: add_notes_from_list_def)
qed

theorem field_count_validation_witness:
  "add_notes_from_list basic_schema
     ([\<lparr>pn_model = ''Basic'', pn_tags = ''t'', pn_markdown = True,
         pn_fields = [(''Front'', ''q''), (''Answer'', ''a'')]\<rparr>] @
      \<lparr>pn_model = ''Basic'', pn_tags = ''t'', pn_markdown = True,
         pn_fields = [(''Front'', ''q''), (''Back'', ''a''), (''Extra'', ''e'')]\<rparr> # []) ''u'' =
     ([''Warning: Inconsistent field names (Back != Answer)'',
       ''Error: Not enough fields for model Basic!''], Inl Abort)
   \<and> add_notes_from_list basic_schema
     [\<lparr>pn_model = ''Basic'', pn_tags = ''t'', pn_markdown = True,
         pn_fields = [(''Front'', ''q''), (''Answer'', ''a'')]\<rparr>] ''u'' =
     ([''Warning: Inconsistent field names (Back != Answer)''],
      Inr [Added [''q'', ''a''] [''u'', ''t''] True])"
proof -
  let ?a = "\<lparr>pn_model = ''Basic'', pn_tags = ''t'', pn_markdown = True,
         pn_fields = [(''Front'', ''q''), (''Answer'', ''a'')]\<rparr>"
  let ?b = "\<lparr>pn_model = ''Basic'', pn_tags = ''t'', pn_markdown = True,
         pn_fields = [(''Front'', ''q''), (''Back'', ''a''), (''Extra'', ''e'')]\<rparr>"
  have 1: "\<forall>n \<in> set [?a]. count_matches basic_schema n" by code_simp
  have 2: "basic_schema (pn_model ?b) = Some [''Front'', ''Back'']" by code_simp
  have 3: "length (pn_fields ?b) \<noteq> length [''Front'', ''Back'']" by simp
  have w: "concat (map (note_warnings basic_schema) [?a]) =
      [''Warning: Inconsistent field names (Back != Answer)'']" by code_simp
  have e: "error_message (pn_model ?b) = ''Error: Not enough fields for model Basic!''"
    by code_simp
  have a: "map (note_added ''u'') [?a] = [Added [''q'', ''a''] [''u'', ''t''] True]"
    by code_simp
  show ?thesis
    using field_count_validation [of ?b "[?a]" basic_schema "[''Front'', ''Back'']" "''u''" "[?a]" "[]"]
      1 2 3
    unfolding w e a by simp
qed

section \<open>Properties of the renderer\<close>

subsection \<open>The instance of the collaborators\<close>

lemma lex_text_no_lt:
  "CHR ''<'' \<notin> set s \<Longrightarrow>
   lex_text acc s = (if rev acc @ s = [] then [] else [TText (rev acc @ s)])"
  by (induction s arbitrary: acc) auto

lemma toy_text_has_no_tag: "text_has_no_tag toy_lib"
  by (simp add: text_has_no_tag_def toy_lib_def toy_parse_def lex_text_no_lt)

subsection \<open>The plain fast path\<close>

lemma plain_match_all:
  assumes "\<forall>c \<in> set t. plain_char c"
  shows "plain_match t"
proof -
  have "dropWhile plain_char t = []"
    using assms by simp
  then show ?thesis
    by (simp add: plain_match_def)
qed

lemma plain_char_not_lt: "\<not> plain_char CHR ''<''"
  by (simp add: plain_char_def)

text \<open>
  Claim C7 (plain fast path).  A text that consists of characters of the plain class
  only is returned by the renderer as it is, whatever the configuration.  Such a text
  holds no \<open><\<close>, so for an HTML library that finds no element in a text without
  \<open><\<close> it is not recognised as generated HTML.
\<close>

theorem plain_fast_path:
  assumes "\<forall>c \<in> set t. plain_char c" and "text_has_no_tag L"
  shows "markdown_to_html L cfg t = Inr t \<and> \<not> is_generated_html L t"
proof -
  have "plain_match t"
    using assms(1) by (rule plain_match_all)
  then have a: "markdown_to_html L cfg t = Inr t"
    by (simp add: markdown_to_html_def)
  have "CHR ''<'' \<notin> set t"
    using assms(1) plain_char_not_lt by blast
  then have "get_first_tag (lib_parse L t) = None"
    using assms(2) by (simp add: text_has_no_tag_def)
  then have "\<not> is_generated_html L t"
    by (simp add: is_generated_html_def)
  with a show ?thesis by simp
qed

theorem plain_fast_path_witness:
  "markdown_to_html toy_lib None ''Is 2+2 4, or 5.0?'' = Inr ''Is 2+2 4, or 5.0?''
   \<and> \<not> is_generated_html toy_lib ''Is 2+2 4, or 5.0?''"
proof -
  have 1: "\<forall>c \<in> set ''Is 2+2 4, or 5.0?''. plain_char c" by code_simp
  show ?thesis
    using 1 toy_text_has_no_tag by (rule plain_fast_path)
qed

subsection \<open>Detection of generated HTML\<close>





lemma not_plain_newline: "\<not> plain_char newline"
  by (simp add: plain_char_def newline_def)

lemma plain_match_newline:
  assumes "\<forall>c \<in> set s. plain_char c"
  shows "plain_match (s @ [newline])"
proof -
  have "dropWhile plain_char (s @ [newline]) = dropWhile plain_char [newline]"
    using assms by (simp add: dropWhile_append2)
  then show ?thesis
    by (simp add: plain_match_def not_plain_newline)
qed

lemma plain_match_iff:
  "plain_match t \<longleftrightarrow>
     (\<forall>c \<in> set t. plain_char c) \<or> (\<exists>s. t = s @ [newline] \<and> (\<forall>c \<in> set s. plain_char c))"
proof
  assume "plain_match t"
  then consider "dropWhile plain_char t = []" | "dropWhile plain_char t = [newline]"
    by (auto simp: plain_match_def)
  then show "(\<forall>c \<in> set t. plain_char c)
      \<or> (\<exists>s. t = s @ [newline] \<and> (\<forall>c \<in> set s. plain_char c))"
  proof cases
    case 1
    then show ?thesis by (simp add: dropWhile_eq_Nil_conv)
  next
    case 2
    have "t = takeWhile plain_char t @ dropWhile plain_char t"
      by simp
    with 2 have "t = takeWhile plain_char t @ [newline]"
      by simp
    moreover have "\<forall>c \<in> set (takeWhile plain_char t). plain_char c"
      by (auto dest: set_takeWhileD)
    ultimately show ?thesis by blast
  qed
next
  assume "(\<forall>c \<in> set t. plain_char c)
      \<or> (\<exists>s. t = s @ [newline] \<and> (\<forall>c \<in> set s. plain_char c))"
  then show "plain_match t"
    by (auto intro: plain_match_all plain_match_newline)
qed

lemma plain_newline_not_generated:
  assumes "\<forall>c \<in> set s. plain_char c" and "text_has_no_tag L"
  shows "markdown_to_html L cfg (s @ [newline]) = Inr (s @ [newline])
     \<and> \<not> is_generated_html L (s @ [newline])"
proof -
  have "plain_match (s @ [newline])"
    using assms(1) by (rule plain_match_newline)
  then have a: "markdown_to_html L cfg (s @ [newline]) = Inr (s @ [newline])"
    by (simp add: markdown_to_html_def)
  have "CHR ''<'' \<notin> set (s @ [newline])"
    using assms(1) plain_char_not_lt by (auto simp: newline_def)
  then have "get_first_tag (lib_parse L (s @ [newline])) = None"
    using assms(2) unfolding text_has_no_tag_def by blast
  then have "\<not> is_generated_html L (s @ [newline])"
    by (simp add: is_generated_html_def)
  with a show ?thesis by simp
qed




subsection \<open>Newlines and the line-break token\<close>


lemma not_occurs_Cons: "\<not> occurs pat (c # cs) \<Longrightarrow> \<not> occurs pat cs"
  by simp




subsection \<open>The round trip\<close>

text \<open>
  Claim C1 as stated fails.  The marker holds \<open>plain\<close> as it is after the escapes, not
  the text that was passed in: \<open>\[\<close> comes back as \<open>\\[\<close>, for every instance of the
  collaborators, since the escapes do not depend on them.  The function
  \<open>html_to_screen\<close> of the source undoes these escapes after \<open>html_to_markdown\<close>.  A
  literal \<open><br>\<close> of the text comes back as a newline.
\<close>

lemma preprocess_math_delimiter:
  "preprocess L None [backslash, CHR ''[''] = [backslash, backslash, CHR ''['']"
  by (simp add: preprocess_def backslash_def)




end
